theory Spec2Isabelle
  imports Complex_Main
begin

section \<open>Python values and exceptions\<close>

text \<open>
  The functions of \<^verbatim>\<open>crypto_mentor_app.py\<close> are untyped: their arguments and the decoded
  JSON bodies are arbitrary Python objects. The objects that can reach them are modelled by
  one datatype. A \<^verbatim>\<open>dict\<close> with string keys is an association list read with \<open>map_of\<close>
  (the decoder has already resolved duplicate keys); a \<^verbatim>\<open>float\<close> is carried as the real
  number it denotes.
\<close>

datatype py_value =
    PyNone
  | PyBool bool
  | PyInt int
  | PyFloat real
  | PyStr string
  | PyList "py_value list"
  | PyDict "(string \<times> py_value) list"

datatype py_error = TypeError | KeyError | ValueError | JSONDecodeError | RequestException

text \<open>
  \<^verbatim>\<open>x < k\<close> and \<open>x > k\<close> for an integer literal \<open>k\<close>: defined on numbers
  (\<^verbatim>\<open>bool\<close> is a subclass of \<^verbatim>\<open>int\<close>), a \<^verbatim>\<open>TypeError\<close> on everything else.
\<close>

fun py_lt_int :: "py_value \<Rightarrow> int \<Rightarrow> py_error + bool" where
  "py_lt_int (PyInt n) k = Inr (n < k)"
| "py_lt_int (PyBool b) k = Inr ((if b then 1 else 0) < k)"
| "py_lt_int (PyFloat x) k = Inr (x < of_int k)"
| "py_lt_int _ k = Inl TypeError"

fun py_gt_int :: "py_value \<Rightarrow> int \<Rightarrow> py_error + bool" where
  "py_gt_int (PyInt n) k = Inr (n > k)"
| "py_gt_int (PyBool b) k = Inr ((if b then 1 else 0) > k)"
| "py_gt_int (PyFloat x) k = Inr (x > of_int k)"
| "py_gt_int _ k = Inl TypeError"

text \<open>
  \<^verbatim>\<open>obj[key]\<close> with a string key: a lookup in a \<^verbatim>\<open>dict\<close> (\<^verbatim>\<open>KeyError\<close> when the key
  is missing); lists and strings take integer indices only and every other object is not
  subscriptable, both a \<^verbatim>\<open>TypeError\<close>.
\<close>

fun py_getitem :: "py_value \<Rightarrow> string \<Rightarrow> py_error + py_value" where
  "py_getitem (PyDict kvs) k = (case map_of kvs k of None \<Rightarrow> Inl KeyError | Some v \<Rightarrow> Inr v)"
| "py_getitem _ k = Inl TypeError"


section \<open>The decision engine\<close>

text \<open>
  The three signal labels are the source's string literals; each starts with an emoji,
  written here as its UTF-8 bytes (U+1F4C8, U+1F4C9 and U+23F3).
\<close>

definition LONG :: string where
  "LONG = [CHR 0xF0, CHR 0x9F, CHR 0x93, CHR 0x88] @ '' LONG''"

definition SHORT :: string where
  "SHORT = [CHR 0xF0, CHR 0x9F, CHR 0x93, CHR 0x89] @ '' SHORT''"

definition WAIT :: string where
  "WAIT = [CHR 0xE2, CHR 0x8F, CHR 0xB3] @ '' WAIT''"

definition rationale1 :: string where
  "rationale1 = ''Strong upside signal based on RSI < 30 and bullish MACD.''"

definition rationale2 :: string where
  "rationale2 = ''RSI > 70 with bearish MACD suggests downside.''"

definition rationale3 :: string where
  "rationale3 = ''Near upper Bollinger Band with bearish MACD.''"

definition rationale4 :: string where
  "rationale4 = ''Near lower Bollinger Band with bullish MACD.''"

definition rationale5 :: string where
  "rationale5 = ''Conditions not favorable for entry.''"

definition Bullish :: py_value where
  "Bullish = PyStr ''Bullish''"

definition Bearish :: py_value where
  "Bearish = PyStr ''Bearish''"

definition NearUpperBand :: py_value where
  "NearUpperBand = PyStr ''Price near Upper Band''"

definition NearLowerBand :: py_value where
  "NearLowerBand = PyStr ''Price near Lower Band''"

text \<open>
  \<^verbatim>\<open>mentor_decision(rsi, macd, bollinger)\<close>, lines 77-87. The \<^verbatim>\<open>if\<close>/\<^verbatim>\<open>elif\<close> chain
  is kept in the source's order. \<^verbatim>\<open>and\<close> evaluates its left operand first, so the
  comparison of \<^verbatim>\<open>rsi\<close> runs (and may raise) before \<^verbatim>\<open>macd\<close> is looked at; the second
  comparison runs only when the first branch was not taken. \<^verbatim>\<open>==\<close> against a string
  literal never raises: it is false for every object that is not that string.
\<close>

definition mentor_decision ::
    "py_value \<Rightarrow> py_value \<Rightarrow> py_value \<Rightarrow> py_error + (string \<times> string)" where
  "mentor_decision rsi macd bollinger =
     (case py_lt_int rsi 30 of
        Inl e \<Rightarrow> Inl e
      | Inr lt \<Rightarrow>
          if lt \<and> macd = Bullish then Inr (LONG, rationale1)
          else (case py_gt_int rsi 70 of
                  Inl e \<Rightarrow> Inl e
                | Inr gt \<Rightarrow>
                    if gt \<and> macd = Bearish then Inr (SHORT, rationale2)
                    else if bollinger = NearUpperBand \<and> macd = Bearish
                      then Inr (SHORT, rationale3)
                    else if bollinger = NearLowerBand \<and> macd = Bullish
                      then Inr (LONG, rationale4)
                    else Inr (WAIT, rationale5)))"


section \<open>The indicator source\<close>

text \<open>
  \<^verbatim>\<open>random.randint(a, b)\<close> is \<^verbatim>\<open>a + _randbelow(b - a + 1)\<close> and \<^verbatim>\<open>random.choice(seq)\<close>
  is \<^verbatim>\<open>seq[_randbelow(len(seq))]\<close>, where \<^verbatim>\<open>_randbelow(n)\<close> is a number below \<open>n\<close>. The
  generator's state is made explicit: each call consumes one raw draw, an arbitrary natural
  number, which is reduced below \<open>n\<close>. (\<^verbatim>\<open>choice\<close> raises on an empty sequence and
  \<^verbatim>\<open>randint\<close> on an empty range; the source calls them on the literals below only.)
\<close>

definition randbelow :: "nat \<Rightarrow> nat \<Rightarrow> nat" where
  "randbelow n draw = draw mod n"

definition randint :: "int \<Rightarrow> int \<Rightarrow> nat \<Rightarrow> int" where
  "randint a b draw = a + int (randbelow (nat (b - a + 1)) draw)"

definition choice :: "'a list \<Rightarrow> nat \<Rightarrow> 'a" where
  "choice seq draw = seq ! randbelow (length seq) draw"

text \<open>The dictionary with the three fixed keys that \<^verbatim>\<open>mock_indicators\<close> returns.\<close>

record indicators =
  RSI :: py_value
  MACD :: py_value
  Bollinger :: py_value

text \<open>\<^verbatim>\<open>mock_indicators()\<close>, lines 53-58, on the three draws it consumes.\<close>

definition mock_indicators :: "nat \<Rightarrow> nat \<Rightarrow> nat \<Rightarrow> indicators" where
  "mock_indicators d1 d2 d3 =
     \<lparr>RSI = PyInt (randint 20 80 d1),
      MACD = choice [Bullish, Bearish] d2,
      Bollinger = choice [NearUpperBand, NearLowerBand] d3\<rparr>"


section \<open>The extremum detector\<close>

text \<open>
  The loop of \<^verbatim>\<open>detect_peaks_troughs\<close>, lines 67-74, over a profile \<open>P\<close>. The chained
  comparison \<^verbatim>\<open>a < b > c\<close> is \<^verbatim>\<open>a < b and b > c\<close>. The index runs over
  \<^verbatim>\<open>range(1, len(P) - 1)\<close>, which is empty for profiles shorter than three, so every
  read \<open>P ! (i - 1)\<close>, \<open>P ! i\<close>, \<open>P ! (i + 1)\<close> is in range. The profile's elements
  are floats; the loop only compares them, so any linear order models them.
\<close>

definition extremum_step ::
    "'a::linorder list \<Rightarrow> nat \<Rightarrow> nat list \<times> nat list \<Rightarrow> nat list \<times> nat list" where
  "extremum_step P i acc =
     (case acc of (peaks, troughs) \<Rightarrow>
        if P ! (i - 1) < P ! i \<and> P ! i > P ! (i + 1) then (peaks @ [i], troughs)
        else if P ! (i - 1) > P ! i \<and> P ! i < P ! (i + 1) then (peaks, troughs @ [i])
        else (peaks, troughs))"

definition find_extrema :: "'a::linorder list \<Rightarrow> nat list \<times> nat list" where
  "find_extrema P = fold (extremum_step P) [1..<length P - 1] ([], [])"


text \<open>The two tests of the loop body, named for the statements about it.\<close>

definition is_peak :: "'a::linorder list \<Rightarrow> nat \<Rightarrow> bool" where
  "is_peak P i \<longleftrightarrow> P ! (i - 1) < P ! i \<and> P ! i > P ! (i + 1)"

definition is_trough :: "'a::linorder list \<Rightarrow> nat \<Rightarrow> bool" where
  "is_trough P i \<longleftrightarrow> P ! (i - 1) > P ! i \<and> P ! i < P ! (i + 1)"


section \<open>The signal extractor\<close>

text \<open>
  \<^verbatim>\<open>numpy.convolve(a, v, mode)\<close>, after the library's documentation and its
  implementation: the full discrete convolution has \<open>length a + length v - 1\<close> entries,
  entry \<open>k\<close> being the sum of all \<open>a[m] * v[k - m]\<close> with both indices in range (what lies
  outside either sequence counts as zero). Mode \<^verbatim>\<open>same\<close> returns \<open>max (length a) (length v)\<close>
  entries of it, starting \<open>n div 2\<close> places before entry \<open>n - 1\<close>, where \<open>n\<close> is the length
  of the shorter argument. An empty argument raises \<^verbatim>\<open>ValueError\<close>. Floating-point
  arithmetic is idealised to the reals.
\<close>

definition convolve_at :: "real list \<Rightarrow> real list \<Rightarrow> nat \<Rightarrow> real" where
  "convolve_at a v k =
     (\<Sum>m\<leftarrow>[0..<length a]. if m \<le> k \<and> k - m < length v then a ! m * v ! (k - m) else 0)"

definition convolve_full :: "real list \<Rightarrow> real list \<Rightarrow> real list" where
  "convolve_full a v = map (convolve_at a v) [0..<length a + length v - 1]"

definition convolve_same :: "real list \<Rightarrow> real list \<Rightarrow> py_error + real list" where
  "convolve_same a v =
     (if a = [] \<or> v = [] then Inl ValueError
      else let n = min (length a) (length v)
           in Inr (take (max (length a) (length v))
                     (drop (n - 1 - n div 2) (convolve_full a v))))"

text \<open>
  Lines 65-66. The edge map is the result of the three OpenCV calls of lines 62-64, which
  keep the image's height and width: it has one row per image row, each entry 0 or 255.
  \<^verbatim>\<open>np.sum(edges, axis=1)\<close> adds each row up in a 64-bit unsigned integer, far from
  overflowing, and \<^verbatim>\<open>np.ones(10)/10\<close> is ten times one tenth.
\<close>

definition row_sums :: "nat list list \<Rightarrow> nat list" where
  "row_sums edges = map sum_list edges"

definition smooth :: "real list \<Rightarrow> py_error + real list" where
  "smooth hist = convolve_same hist (replicate 10 (1 / 10))"

definition hist_smooth :: "nat list list \<Rightarrow> py_error + real list" where
  "hist_smooth edges = smooth (map real (row_sums edges))"

text \<open>\<^verbatim>\<open>detect_peaks_troughs\<close> from the edge map on (lines 65-74).\<close>

definition detect_peaks_troughs :: "nat list list \<Rightarrow> py_error + (nat list \<times> nat list)" where
  "detect_peaks_troughs edges =
     (case hist_smooth edges of Inl e \<Rightarrow> Inl e | Inr P \<Rightarrow> Inr (find_extrema P))"

text \<open>
  The two readings of a moving average at the ends of the profile, for comparison with
  \<open>smooth\<close>. The window of row \<open>i\<close> holds the ten rows \<open>i - 5\<close> to \<open>i + 4\<close>. Following the
  specification's words, the truncated average divides the sum of the rows of the window
  that exist by their number; the zero-padded average reads a zero for a row that does not
  exist and divides by ten.
\<close>

definition window_rows :: "nat \<Rightarrow> nat \<Rightarrow> nat list" where
  "window_rows H i = [i - 5..<min H (i + 5)]"

definition truncated_average :: "real list \<Rightarrow> nat \<Rightarrow> real" where
  "truncated_average hist i =
     (\<Sum>j\<leftarrow>window_rows (length hist) i. hist ! j) / real (length (window_rows (length hist) i))"

definition padded_row :: "real list \<Rightarrow> int \<Rightarrow> real" where
  "padded_row hist j = (if 0 \<le> j \<and> j < int (length hist) then hist ! nat j else 0)"

definition zero_padded_average :: "real list \<Rightarrow> nat \<Rightarrow> real" where
  "zero_padded_average hist i = (\<Sum>d\<leftarrow>[0..<10]. padded_row hist (int i - 5 + int d)) / 10"


section \<open>The price and market-mover fetches\<close>

text \<open>
  What \<^verbatim>\<open>requests.get(url)\<close> followed by \<^verbatim>\<open>response.json()\<close> can do: the request
  raises (no connection, timeout), or a response arrives with a status code and a body that
  either decodes to a Python object or makes \<^verbatim>\<open>json()\<close> raise. Neither function looks
  at the status code.
\<close>

datatype http_outcome = RequestFailed | Responded nat "py_value option"

text \<open>The \<^verbatim>\<open>try\<close> block of \<^verbatim>\<open>get_price\<close>, lines 33-35.\<close>

definition get_price_try :: "string \<Rightarrow> http_outcome \<Rightarrow> py_error + py_value" where
  "get_price_try coin_id outcome =
     (case outcome of
        RequestFailed \<Rightarrow> Inl RequestException
      | Responded status body \<Rightarrow>
          (case body of
             None \<Rightarrow> Inl JSONDecodeError
           | Some data \<Rightarrow>
               (case py_getitem data coin_id of
                  Inl e \<Rightarrow> Inl e
                | Inr entry \<Rightarrow> py_getitem entry ''usdt'')))"

text \<open>
  \<^verbatim>\<open>get_price(coin_id)\<close>, lines 30-37: the bare \<^verbatim>\<open>except\<close> turns every exception of the
  block into the return value \<^verbatim>\<open>None\<close>. The result type keeps an error alternative, so
  that raising nothing is a property of the function and not of its type.
\<close>

definition get_price :: "string \<Rightarrow> http_outcome \<Rightarrow> py_error + py_value" where
  "get_price coin_id outcome =
     (case get_price_try coin_id outcome of Inl e \<Rightarrow> Inr PyNone | Inr price \<Rightarrow> Inr price)"

text \<open>
  The slices \<^verbatim>\<open>data[:5]\<close> and \<^verbatim>\<open>data[-5:]\<close>, as the sequence of items the list
  comprehension then iterates over. A list gives its first five and its last five items
  (all of them when it has fewer). A string gives one-character strings. Every other object
  raises: numbers, booleans and \<^verbatim>\<open>None\<close> a \<^verbatim>\<open>TypeError\<close>, a \<^verbatim>\<open>dict\<close> a
  \<^verbatim>\<open>TypeError\<close> or, in recent Python versions, a \<^verbatim>\<open>KeyError\<close>; the caller treats all
  exceptions alike.
\<close>

fun slice_first5 :: "py_value \<Rightarrow> py_error + py_value list" where
  "slice_first5 (PyList xs) = Inr (take 5 xs)"
| "slice_first5 (PyStr s) = Inr (map (\<lambda>c. PyStr [c]) (take 5 s))"
| "slice_first5 _ = Inl TypeError"

fun slice_last5 :: "py_value \<Rightarrow> py_error + py_value list" where
  "slice_last5 (PyList xs) = Inr (drop (length xs - 5) xs)"
| "slice_last5 (PyStr s) = Inr (map (\<lambda>c. PyStr [c]) (drop (length s - 5) s))"
| "slice_last5 _ = Inl TypeError"

text \<open>
  One tuple of the list comprehensions of lines 46-47, and the comprehension itself, which
  stops at the first record that raises.
\<close>

definition mover_row :: "py_value \<Rightarrow> py_error + (py_value \<times> py_value \<times> py_value)" where
  "mover_row coin =
     (case py_getitem coin ''name'' of
        Inl e \<Rightarrow> Inl e
      | Inr name \<Rightarrow>
          (case py_getitem coin ''symbol'' of
             Inl e \<Rightarrow> Inl e
           | Inr symbol \<Rightarrow>
               (case py_getitem coin ''price_change_percentage_24h'' of
                  Inl e \<Rightarrow> Inl e
                | Inr change \<Rightarrow> Inr (name, symbol, change))))"

fun mover_rows :: "py_value list \<Rightarrow> py_error + (py_value \<times> py_value \<times> py_value) list" where
  "mover_rows [] = Inr []"
| "mover_rows (coin # coins) =
     (case mover_row coin of
        Inl e \<Rightarrow> Inl e
      | Inr row \<Rightarrow>
          (case mover_rows coins of Inl e \<Rightarrow> Inl e | Inr rows \<Rightarrow> Inr (row # rows)))"

text \<open>The \<^verbatim>\<open>try\<close> block of \<^verbatim>\<open>get_top_movers\<close>, lines 44-48.\<close>

definition get_top_movers_try ::
    "http_outcome \<Rightarrow>
     py_error + ((py_value \<times> py_value \<times> py_value) list \<times> (py_value \<times> py_value \<times> py_value) list)"
  where
  "get_top_movers_try outcome =
     (case outcome of
        RequestFailed \<Rightarrow> Inl RequestException
      | Responded status body \<Rightarrow>
          (case body of
             None \<Rightarrow> Inl JSONDecodeError
           | Some data \<Rightarrow>
               (case slice_first5 data of
                  Inl e \<Rightarrow> Inl e
                | Inr firsts \<Rightarrow>
                    (case mover_rows firsts of
                       Inl e \<Rightarrow> Inl e
                     | Inr top_gainers \<Rightarrow>
                         (case slice_last5 data of
                            Inl e \<Rightarrow> Inl e
                          | Inr lasts \<Rightarrow>
                              (case mover_rows lasts of
                                 Inl e \<Rightarrow> Inl e
                               | Inr top_losers \<Rightarrow> Inr (top_gainers, top_losers)))))))"

text \<open>
  \<^verbatim>\<open>get_top_movers()\<close>, lines 41-50, for one fetch; the cache decorator only replays the
  value a fetch returned.
\<close>

definition get_top_movers ::
    "http_outcome \<Rightarrow>
     (py_value \<times> py_value \<times> py_value) list \<times> (py_value \<times> py_value \<times> py_value) list" where
  "get_top_movers outcome =
     (case get_top_movers_try outcome of Inl e \<Rightarrow> ([], []) | Inr movers \<Rightarrow> movers)"


section \<open>Properties of the decision engine\<close>

lemma labels_distinct: "LONG \<noteq> SHORT" "LONG \<noteq> WAIT" "SHORT \<noteq> WAIT"
  by (simp_all add: LONG_def SHORT_def WAIT_def)

lemma indicator_values_distinct:
  "Bullish \<noteq> Bearish" "NearUpperBand \<noteq> NearLowerBand"
  by (simp_all add: Bullish_def Bearish_def NearUpperBand_def NearLowerBand_def)

lemma mentor_decision_int:
  "mentor_decision (PyInt n) macd bollinger =
     Inr (if n < 30 \<and> macd = Bullish then (LONG, rationale1)
          else if n > 70 \<and> macd = Bearish then (SHORT, rationale2)
          else if bollinger = NearUpperBand \<and> macd = Bearish then (SHORT, rationale3)
          else if bollinger = NearLowerBand \<and> macd = Bullish then (LONG, rationale4)
          else (WAIT, rationale5))"
  unfolding mentor_decision_def py_lt_int.simps py_gt_int.simps sum.case
  by presburger

text \<open>
  Claim C1. On the five indicator states of the scenario table the engine answers Long,
  Short, Short, Long and Wait, in this order; the rationale shows which rule fired
  (rules 1, 2, 3, 4 and the default).
\<close>

theorem mentor_decision_scenarios:
  "mentor_decision (PyInt 25) Bullish NearLowerBand = Inr (LONG, rationale1)
   \<and> mentor_decision (PyInt 75) Bearish NearUpperBand = Inr (SHORT, rationale2)
   \<and> mentor_decision (PyInt 50) Bearish NearUpperBand = Inr (SHORT, rationale3)
   \<and> mentor_decision (PyInt 50) Bullish NearLowerBand = Inr (LONG, rationale4)
   \<and> mentor_decision (PyInt 50) Bullish NearUpperBand = Inr (WAIT, rationale5)"
  by (simp add: mentor_decision_int indicator_values_distinct
      indicator_values_distinct [symmetric])

text \<open>
  Claim C6. For every integer RSI and all values of MACD and Bollinger (in particular the
  two MACD directions and the two band positions) the engine raises nothing and returns
  exactly one pair of signal and rationale, whose signal is one of the three labels. The
  result is a function of the three arguments alone, so equal inputs give equal pairs.
\<close>

theorem mentor_decision_total:
  "\<exists>!r. mentor_decision (PyInt n) macd bollinger = Inr r \<and> fst r \<in> {LONG, SHORT, WAIT}"
proof -
  obtain r where "mentor_decision (PyInt n) macd bollinger = Inr r"
    and "fst r \<in> {LONG, SHORT, WAIT}"
    by (simp add: mentor_decision_int)
  then show ?thesis by auto
qed

text \<open>
  Claim C9. Whatever the three arguments are, a returned Long signal means that MACD is
  Bullish, a returned Short signal means that MACD is Bearish, and every other returned
  signal is Wait: no RSI value and no band position yields a direction against MACD.
\<close>

theorem mentor_decision_follows_macd:
  "mentor_decision rsi macd bollinger = Inr (signal, why) \<Longrightarrow>
     (signal = LONG \<longrightarrow> macd = Bullish)
     \<and> (signal = SHORT \<longrightarrow> macd = Bearish)
     \<and> (signal \<noteq> LONG \<and> signal \<noteq> SHORT \<longrightarrow> signal = WAIT)
     \<and> (macd \<noteq> Bullish \<and> macd \<noteq> Bearish \<longrightarrow> signal = WAIT)"
  unfolding mentor_decision_def
  by (simp add: labels_distinct labels_distinct [symmetric] split: sum.splits if_splits)

theorem mentor_decision_follows_macd_witness:
  "mentor_decision (PyInt 25) Bullish NearUpperBand = Inr (LONG, rationale1)
   \<and> mentor_decision (PyInt 75) Bearish NearLowerBand = Inr (SHORT, rationale2)
   \<and> mentor_decision (PyInt 25) Bearish NearLowerBand = Inr (WAIT, rationale5)
   \<and> mentor_decision (PyInt 25) Bearish NearLowerBand \<noteq> Inr (LONG, rationale4)
   \<and> Bullish = Bullish \<and> Bearish = Bearish"
proof -
  have a: "mentor_decision (PyInt 25) Bullish NearUpperBand = Inr (LONG, rationale1)"
    by (simp add: mentor_decision_int)
  have b: "mentor_decision (PyInt 75) Bearish NearLowerBand = Inr (SHORT, rationale2)"
    by (simp add: mentor_decision_int indicator_values_distinct [symmetric])
  have c: "mentor_decision (PyInt 25) Bearish NearLowerBand = Inr (WAIT, rationale5)"
    by (simp add: mentor_decision_int indicator_values_distinct
        indicator_values_distinct [symmetric])
  have d: "mentor_decision (PyInt 25) Bearish NearLowerBand \<noteq> Inr (LONG, rationale4)"
    using mentor_decision_follows_macd [of "PyInt 25" Bearish NearLowerBand LONG rationale4]
      indicator_values_distinct(1)
    by metis
  from mentor_decision_follows_macd [OF a] mentor_decision_follows_macd [OF b] a b c d
  show ?thesis by blast
qed

section \<open>Properties of the extremum detector\<close>

lemma fold_extremum_step:
  "fold (extremum_step P) js (ps, ts) =
     (ps @ filter (is_peak P) js, ts @ filter (is_trough P) js)"
  by (induction js arbitrary: ps ts) (auto simp: extremum_step_def is_peak_def is_trough_def)

lemma find_extrema_filter:
  "find_extrema P =
     (filter (is_peak P) [1..<length P - 1], filter (is_trough P) [1..<length P - 1])"
  by (simp add: find_extrema_def fold_extremum_step)

lemma peak_iff:
  "find_extrema P = (peaks, troughs) \<Longrightarrow>
     i \<in> set peaks \<longleftrightarrow> 1 \<le> i \<and> i + 1 < length P \<and> is_peak P i"
  by (auto simp: find_extrema_filter)

lemma trough_iff:
  "find_extrema P = (peaks, troughs) \<Longrightarrow>
     i \<in> set troughs \<longleftrightarrow> 1 \<le> i \<and> i + 1 < length P \<and> is_trough P i"
  by (auto simp: find_extrema_filter)

lemma increasing_no_extremum:
  assumes "sorted_wrt (<) P" "1 \<le> i" "i + 1 < length P"
  shows "\<not> is_peak P i \<and> \<not> is_trough P i"
proof -
  have "P ! (i - 1) < P ! i" "P ! i < P ! (i + 1)"
    using assms sorted_wrt_nth_less [of "(<)" P "i - 1" i]
      sorted_wrt_nth_less [of "(<)" P i "i + 1"]
    by simp_all
  then show ?thesis by (auto simp: is_peak_def is_trough_def)
qed

lemma decreasing_no_extremum:
  assumes "sorted_wrt (>) P" "1 \<le> i" "i + 1 < length P"
  shows "\<not> is_peak P i \<and> \<not> is_trough P i"
proof -
  have "P ! (i - 1) > P ! i" "P ! i > P ! (i + 1)"
    using assms sorted_wrt_nth_less [of "(>)" P "i - 1" i]
      sorted_wrt_nth_less [of "(>)" P i "i + 1"]
    by simp_all
  then show ?thesis by (auto simp: is_peak_def is_trough_def)
qed

lemma constant_no_extremum:
  assumes "\<forall>x\<in>set P. x = c" "1 \<le> i" "i + 1 < length P"
  shows "\<not> is_peak P i \<and> \<not> is_trough P i"
proof -
  have "P ! i = c" "P ! (i + 1) = c"
    using assms by auto
  then show ?thesis by (auto simp: is_peak_def is_trough_def)
qed

lemma no_extremum_empty:
  assumes "\<And>i. 1 \<le> i \<Longrightarrow> i + 1 < length P \<Longrightarrow> \<not> is_peak P i \<and> \<not> is_trough P i"
  shows "find_extrema P = ([], [])"
  using assms by (auto simp: find_extrema_filter filter_empty_conv)

text \<open>
  Claim C2. For a profile of length at least three, every reported peak is strictly above
  both neighbours, every reported trough strictly below both, and neither the first nor the
  last index is reported. Hence an inner index with an equal neighbour is reported as
  neither, and a strictly increasing, strictly decreasing or constant profile has no peaks
  and no troughs.
\<close>

theorem find_extrema_strict:
  assumes "3 \<le> length P" and "find_extrema P = (peaks, troughs)"
  shows "(\<forall>i\<in>set peaks. P ! (i - 1) < P ! i \<and> P ! i > P ! (i + 1) \<and> i \<noteq> 0 \<and> i \<noteq> length P - 1)
    \<and> (\<forall>i\<in>set troughs. P ! (i - 1) > P ! i \<and> P ! i < P ! (i + 1) \<and> i \<noteq> 0 \<and> i \<noteq> length P - 1)
    \<and> (\<forall>i. 1 \<le> i \<and> i + 1 < length P \<and> (P ! (i - 1) = P ! i \<or> P ! i = P ! (i + 1))
          \<longrightarrow> i \<notin> set peaks \<and> i \<notin> set troughs)
    \<and> (sorted_wrt (<) P \<or> sorted_wrt (>) P \<or> (\<exists>c. \<forall>x\<in>set P. x = c)
          \<longrightarrow> peaks = [] \<and> troughs = [])"
proof (intro conjI)
  show "\<forall>i\<in>set peaks. P ! (i - 1) < P ! i \<and> P ! i > P ! (i + 1) \<and> i \<noteq> 0 \<and> i \<noteq> length P - 1"
    using peak_iff [OF assms(2)] by (auto simp: is_peak_def)
  show "\<forall>i\<in>set troughs. P ! (i - 1) > P ! i \<and> P ! i < P ! (i + 1) \<and> i \<noteq> 0 \<and> i \<noteq> length P - 1"
    using trough_iff [OF assms(2)] by (auto simp: is_trough_def)
  show "\<forall>i. 1 \<le> i \<and> i + 1 < length P \<and> (P ! (i - 1) = P ! i \<or> P ! i = P ! (i + 1))
          \<longrightarrow> i \<notin> set peaks \<and> i \<notin> set troughs"
    using peak_iff [OF assms(2)] trough_iff [OF assms(2)]
    by (auto simp: is_peak_def is_trough_def)
  show "sorted_wrt (<) P \<or> sorted_wrt (>) P \<or> (\<exists>c. \<forall>x\<in>set P. x = c)
          \<longrightarrow> peaks = [] \<and> troughs = []"
  proof
    assume "sorted_wrt (<) P \<or> sorted_wrt (>) P \<or> (\<exists>c. \<forall>x\<in>set P. x = c)"
    then have "\<And>i. 1 \<le> i \<Longrightarrow> i + 1 < length P \<Longrightarrow> \<not> is_peak P i \<and> \<not> is_trough P i"
      using increasing_no_extremum decreasing_no_extremum constant_no_extremum by blast
    then have "find_extrema P = ([], [])" by (rule no_extremum_empty)
    with assms(2) show "peaks = [] \<and> troughs = []" by simp
  qed
qed

text \<open>
  Claim C3. For every profile, the peaks and the troughs are strictly increasing lists of
  indices with no index in common, and every reported index \<open>i\<close> satisfies
  \<open>1 \<le> i \<le> H - 2\<close> for the profile length \<open>H\<close> (written \<open>i + 2 \<le> H\<close>, as subtraction on
  natural numbers stops at zero).
\<close>

theorem find_extrema_indices:
  assumes "find_extrema P = (peaks, troughs)"
  shows "sorted_wrt (<) peaks \<and> sorted_wrt (<) troughs \<and> set peaks \<inter> set troughs = {}
    \<and> (\<forall>i\<in>set peaks \<union> set troughs. 1 \<le> i \<and> i + 2 \<le> length P)"
proof -
  have "peaks = filter (is_peak P) [1..<length P - 1]"
    and "troughs = filter (is_trough P) [1..<length P - 1]"
    using assms by (simp_all add: find_extrema_filter)
  then have "sorted_wrt (<) peaks" "sorted_wrt (<) troughs"
    by (simp_all add: sorted_wrt_filter)
  moreover have "set peaks \<inter> set troughs = {}"
    using peak_iff [OF assms] trough_iff [OF assms] by (auto simp: is_peak_def is_trough_def)
  moreover have "\<forall>i\<in>set peaks \<union> set troughs. 1 \<le> i \<and> i + 2 \<le> length P"
    using peak_iff [OF assms] trough_iff [OF assms] by auto
  ultimately show ?thesis by blast
qed

theorem find_extrema_strict_witness:
  "find_extrema [1, 3, 2, 0, 5 :: int] = ([1], [3])
   \<and> [1, 3, 2, 0, 5 :: int] ! 0 < [1, 3, 2, 0, 5] ! 1 \<and> [1, 3, 2, 0, 5 :: int] ! 1 > [1, 3, 2, 0, 5] ! 2
   \<and> [1, 3, 2, 0, 5 :: int] ! 2 > [1, 3, 2, 0, 5] ! 3 \<and> [1, 3, 2, 0, 5 :: int] ! 3 < [1, 3, 2, 0, 5] ! 4
   \<and> find_extrema [1, 3, 3, 0 :: int] = ([], [])
   \<and> find_extrema [1, 2, 3 :: int] = ([], [])
   \<and> find_extrema [3, 2, 1 :: int] = ([], [])
   \<and> find_extrema [2, 2, 2 :: int] = ([], [])"
proof -
  have a: "find_extrema [1, 3, 2, 0, 5 :: int] = ([1], [3])"
    by (simp add: find_extrema_def extremum_step_def upt_rec)
  have b: "find_extrema [1, 3, 3, 0 :: int] = ([], [])"
    by (simp add: find_extrema_def extremum_step_def upt_rec)
  obtain p3 t3 where c: "find_extrema [1, 2, 3 :: int] = (p3, t3)" by force
  obtain p4 t4 where d: "find_extrema [3, 2, 1 :: int] = (p4, t4)" by force
  obtain p5 t5 where e: "find_extrema [2, 2, 2 :: int] = (p5, t5)" by force
  have "p3 = [] \<and> t3 = []"
    using find_extrema_strict [OF _ c] by simp
  moreover have "p4 = [] \<and> t4 = []"
    using find_extrema_strict [OF _ d] by simp
  moreover have "p5 = [] \<and> t5 = []"
    using find_extrema_strict [OF _ e] by simp
  moreover note find_extrema_strict [OF _ a] find_extrema_strict [OF _ b]
  ultimately show ?thesis using a b c d e by simp
qed

theorem find_extrema_indices_witness:
  "find_extrema [1, 3, 2, 0, 5 :: int] = ([1], [3])
   \<and> sorted_wrt (<) [1 :: nat] \<and> sorted_wrt (<) [3 :: nat] \<and> set [1 :: nat] \<inter> set [3] = {}
   \<and> (1 :: nat) \<le> 1 \<and> (1 :: nat) + 2 \<le> length [1, 3, 2, 0, 5 :: int]
   \<and> (1 :: nat) \<le> 3 \<and> (3 :: nat) + 2 \<le> length [1, 3, 2, 0, 5 :: int]"
proof -
  have a: "find_extrema [1, 3, 2, 0, 5 :: int] = ([1], [3])"
    by (simp add: find_extrema_def extremum_step_def upt_rec)
  from find_extrema_indices [OF a] a show ?thesis by simp
qed


section \<open>Properties of the signal extractor\<close>

lemma length_convolve_full: "length (convolve_full a v) = length a + length v - 1"
  by (simp add: convolve_full_def)

lemma convolve_same_length:
  assumes "convolve_same a v = Inr P"
  shows "length P = max (length a) (length v)"
proof -
  have ne: "a \<noteq> []" "v \<noteq> []"
    using assms by (auto simp: convolve_same_def split: if_splits)
  then have pos: "0 < length a" "0 < length v" by simp_all
  define n where "n = min (length a) (length v)"
  have P: "P = take (max (length a) (length v)) (drop (n - 1 - n div 2) (convolve_full a v))"
    using assms ne by (simp add: convolve_same_def n_def Let_def)
  have "max (length a) (length v) \<le> length (convolve_full a v) - (n - 1 - n div 2)"
    using pos unfolding n_def length_convolve_full by arith
  then show ?thesis
    unfolding P length_take length_drop by (rule min_absorb2)
qed

lemma convolve_at_nonneg:
  assumes "\<forall>x\<in>set a. 0 \<le> x" "\<forall>x\<in>set v. 0 \<le> x"
  shows "0 \<le> convolve_at a v k"
  unfolding convolve_at_def
  using assms by (intro sum_list_nonneg) auto

lemma convolve_same_nonneg:
  assumes "convolve_same a v = Inr P" "\<forall>x\<in>set a. 0 \<le> x" "\<forall>x\<in>set v. 0 \<le> x"
  shows "\<forall>x\<in>set P. 0 \<le> x"
proof -
  have "set P \<subseteq> set (convolve_full a v)"
    using assms(1) by (auto simp: convolve_same_def Let_def split: if_splits
        dest!: in_set_takeD in_set_dropD)
  moreover have "\<forall>x\<in>set (convolve_full a v). 0 \<le> x"
    using convolve_at_nonneg [OF assms(2,3)] by (auto simp: convolve_full_def)
  ultimately show ?thesis by blast
qed

lemma hist_smooth_defined:
  "edges \<noteq> [] \<Longrightarrow> \<exists>P. hist_smooth edges = Inr P"
  by (simp add: hist_smooth_def smooth_def convolve_same_def row_sums_def Let_def)

lemma hist_smooth_length:
  "hist_smooth edges = Inr P \<Longrightarrow> length P = max (length edges) 10"
  by (auto simp: hist_smooth_def smooth_def row_sums_def dest!: convolve_same_length)

lemma hist_smooth_nonneg:
  "hist_smooth edges = Inr P \<Longrightarrow> \<forall>x\<in>set P. 0 \<le> x"
  unfolding hist_smooth_def smooth_def
  by (erule convolve_same_nonneg) auto

text \<open>
  Claim C4, at an image of height one. The edge map has a single row, and the profile
  returned for it has ten entries: mode \<^verbatim>\<open>same\<close> returns as many entries as the longer of
  its two arguments, which is the ten-entry kernel whenever the image has fewer than ten
  rows. (By \<open>hist_smooth_length\<close> and \<open>hist_smooth_nonneg\<close> the profile has
  \<open>max H 10\<close> entries, none of them negative, for every height \<open>H\<close>.)
\<close>

theorem hist_smooth_short_image:
  "hist_smooth [[0, 255, 0]] =
     Inr [51 / 2, 51 / 2, 51 / 2, 51 / 2, 51 / 2, 51 / 2, 51 / 2, 51 / 2, 51 / 2, 51 / 2]
   \<and> length [[0, 255, 0 :: nat]] = 1"
  by (simp add: hist_smooth_def smooth_def row_sums_def convolve_same_def convolve_full_def
      convolve_at_def upt_rec nth_Cons')

lemma smooth_nth:
  assumes "10 \<le> length hist" "smooth hist = Inr P" "i < length hist"
  shows "P ! i = convolve_at hist (replicate 10 (1 / 10)) (i + 4)"
proof -
  have ne: "hist \<noteq> []" using assms(1) by auto
  have "min (length hist) 10 = 10" "max (length hist) 10 = length hist"
    using assms(1) by simp_all
  then have P: "P = take (length hist) (drop 4 (convolve_full hist (replicate 10 (1 / 10))))"
    using assms(2) ne by (simp add: smooth_def convolve_same_def)
  have "i + 4 < length hist + 10 - 1" using assms(3) by simp
  then show ?thesis
    unfolding P using assms(3)
    by (simp add: convolve_full_def add.commute)
qed

lemma sum_list_window:
  "(\<Sum>j\<leftarrow>window_rows H i. f j) = (\<Sum>j\<in>{i - 5..<min H (i + 5)}. f j)"
  unfolding window_rows_def by (simp add: interv_sum_list_conv_sum_set_nat)

lemma convolve_at_window:
  "convolve_at hist (replicate 10 (1 / 10)) (i + 4) =
     (\<Sum>j\<leftarrow>window_rows (length hist) i. hist ! j) / 10"
proof -
  let ?H = "length hist"
  let ?W = "{i - 5..<min ?H (i + 5)}"
  have "convolve_at hist (replicate 10 (1 / 10)) (i + 4) =
      (\<Sum>m\<leftarrow>[0..<?H]. if m \<in> ?W then hist ! m / 10 else 0)"
    unfolding convolve_at_def
    by (rule arg_cong [where f = sum_list], rule map_cong) auto
  also have "\<dots> = (\<Sum>m\<in>{0..<?H}. if m \<in> ?W then hist ! m / 10 else 0)"
    by (simp add: interv_sum_list_conv_sum_set_nat)
  also have "\<dots> = (\<Sum>m\<in>?W. hist ! m / 10)"
    by (rule sum.mono_neutral_cong_right) auto
  also have "(\<Sum>m\<in>?W. hist ! m / 10) = (\<Sum>m\<in>?W. hist ! m) / 10"
    by (simp add: sum_divide_distrib)
  finally show ?thesis by (simp add: sum_list_window)
qed

lemma zero_padded_average_window:
  "zero_padded_average hist i = (\<Sum>j\<leftarrow>window_rows (length hist) i. hist ! j) / 10"
proof -
  let ?H = "length hist"
  let ?W = "{i - 5..<min ?H (i + 5)}"
  let ?D = "{d \<in> {0..<10::nat}. 0 \<le> int i - 5 + int d \<and> int i - 5 + int d < int ?H}"
  have "(\<Sum>d\<leftarrow>[0..<10]. padded_row hist (int i - 5 + int d)) =
      (\<Sum>d\<in>{0..<10}. padded_row hist (int i - 5 + int d))"
    by (simp add: interv_sum_list_conv_sum_set_nat)
  also have "\<dots> = (\<Sum>d\<in>?D. hist ! nat (int i - 5 + int d))"
    unfolding padded_row_def
    by (rule sum.mono_neutral_cong_right) auto
  also have "\<dots> = (\<Sum>j\<in>?W. hist ! j)"
    by (rule sum.reindex_bij_witness
        [where i = "\<lambda>j. nat (int j + 5 - int i)" and j = "\<lambda>d. nat (int i - 5 + int d)"])
      auto
  finally show ?thesis
    by (simp add: zero_padded_average_def sum_list_window)
qed

text \<open>
  Claim C5, as the code has it. For a raw profile of at least ten rows, the smoothed value
  of row \<open>i\<close> is the zero-padded average of the window of rows \<open>i - 5\<close> to \<open>i + 4\<close>: the
  sum of the rows of the window that exist, divided by ten however many of them exist.
\<close>

theorem smooth_zero_padded:
  assumes "10 \<le> length hist" and "smooth hist = Inr P" and "i < length hist"
  shows "P ! i = zero_padded_average hist i
    \<and> P ! i = (\<Sum>j\<leftarrow>window_rows (length hist) i. hist ! j) / 10"
  using smooth_nth [OF assms] by (simp add: convolve_at_window zero_padded_average_window)

text \<open>
  The smoothed profile of ten rows with one edge pixel each: its first value is the
  zero-padded average 127.5 and not the average 255 of the five rows of its window that
  exist.
\<close>

theorem smooth_not_truncated:
  "hist_smooth (replicate 10 [255]) =
     Inr [255 / 2, 153, 357 / 2, 204, 459 / 2, 255, 459 / 2, 204, 357 / 2, 153]
   \<and> zero_padded_average (map real (row_sums (replicate 10 [255]))) 0 = 255 / 2
   \<and> truncated_average (map real (row_sums (replicate 10 [255]))) 0 = 255"
  by (simp add: hist_smooth_def smooth_def row_sums_def convolve_same_def convolve_full_def
      convolve_at_def zero_padded_average_def padded_row_def truncated_average_def
      window_rows_def upt_rec nth_Cons')

theorem smooth_zero_padded_witness:
  "smooth [1, 2, 3, 4, 5, 6, 7, 8, 9, 10, 11, 120] =
     Inr [3 / 2, 21 / 10, 14 / 5, 18 / 5, 9 / 2, 11 / 2, 13 / 2, 183 / 10, 18, 88 / 5,
          171 / 10, 33 / 2]
   \<and> zero_padded_average [1, 2, 3, 4, 5, 6, 7, 8, 9, 10, 11, 120] 11 = 33 / 2
   \<and> truncated_average [1, 2, 3, 4, 5, 6, 7, 8, 9, 10, 11, 120] 11 = 55 / 2"
proof -
  let ?hist = "[1, 2, 3, 4, 5, 6, 7, 8, 9, 10, 11, 120 :: real]"
  let ?P = "[3 / 2, 21 / 10, 14 / 5, 18 / 5, 9 / 2, 11 / 2, 13 / 2, 183 / 10, 18, 88 / 5,
          171 / 10, 33 / 2 :: real]"
  have a: "smooth ?hist = Inr ?P"
    by (simp add: smooth_def convolve_same_def convolve_full_def convolve_at_def upt_rec
        nth_Cons')
  have b: "10 \<le> length ?hist" and c: "11 < length ?hist"
    by simp_all
  have "?P ! 11 = zero_padded_average ?hist 11"
    using smooth_zero_padded [OF b a c] by (rule conjunct1)
  then have "zero_padded_average ?hist 11 = 33 / 2"
    by simp
  moreover have "truncated_average ?hist 11 = 55 / 2"
    by (simp add: truncated_average_def window_rows_def upt_rec)
  ultimately show ?thesis using a by simp
qed


section \<open>Properties of the indicator source\<close>

lemma randint_20_80: "20 \<le> randint 20 80 d \<and> randint 20 80 d \<le> 80"
proof -
  have "d mod 61 < 61" by simp
  then show ?thesis by (simp add: randint_def randbelow_def)
qed

lemma choice_pair: "choice [x, y] d = x \<or> choice [x, y] d = y"
proof -
  have "randbelow (length [x, y]) d = 0 \<or> randbelow (length [x, y]) d = Suc 0"
    unfolding randbelow_def by simp arith
  then show ?thesis
    unfolding choice_def by (elim disjE) simp_all
qed

lemma rationales_distinct: "rationale1 \<noteq> rationale4" "rationale2 \<noteq> rationale3"
  by (simp_all add: rationale1_def rationale2_def rationale3_def rationale4_def)

text \<open>
  Claim C8. Whatever the generator draws, the RSI of \<open>mock_indicators\<close> is an integer from
  20 to 80, its MACD is Bullish or Bearish and its Bollinger value is one of the two band
  positions. Hence, on these indicators, the engine takes its first branch (RSI below 30)
  only with an RSI from 20 to 29 and its second branch (RSI above 70) only with an RSI from
  71 to 80; the rationale returned identifies the branch.
\<close>

theorem mock_indicators_range:
  "\<exists>n. RSI (mock_indicators d1 d2 d3) = PyInt n \<and> 20 \<le> n \<and> n \<le> 80
     \<and> MACD (mock_indicators d1 d2 d3) \<in> {Bullish, Bearish}
     \<and> Bollinger (mock_indicators d1 d2 d3) \<in> {NearUpperBand, NearLowerBand}
     \<and> (mentor_decision (RSI (mock_indicators d1 d2 d3)) (MACD (mock_indicators d1 d2 d3))
           (Bollinger (mock_indicators d1 d2 d3)) = Inr (LONG, rationale1)
         \<longrightarrow> 20 \<le> n \<and> n \<le> 29)
     \<and> (mentor_decision (RSI (mock_indicators d1 d2 d3)) (MACD (mock_indicators d1 d2 d3))
           (Bollinger (mock_indicators d1 d2 d3)) = Inr (SHORT, rationale2)
         \<longrightarrow> 71 \<le> n \<and> n \<le> 80)"
proof -
  define n where "n = randint 20 80 d1"
  define m where "m = mock_indicators d1 d2 d3"
  have rsi: "RSI m = PyInt n" by (simp add: m_def n_def mock_indicators_def)
  have range: "20 \<le> n" "n \<le> 80" using randint_20_80 [of d1] by (simp_all add: n_def)
  have macd: "MACD m \<in> {Bullish, Bearish}"
    using choice_pair [of Bullish Bearish d2] by (auto simp: m_def mock_indicators_def)
  have boll: "Bollinger m \<in> {NearUpperBand, NearLowerBand}"
    using choice_pair [of NearUpperBand NearLowerBand d3]
    by (auto simp: m_def mock_indicators_def)
  have one: "n \<le> 29" if "mentor_decision (RSI m) (MACD m) (Bollinger m) = Inr (LONG, rationale1)"
    using that unfolding rsi mentor_decision_int
    by (simp add: labels_distinct labels_distinct [symmetric] rationales_distinct
        rationales_distinct [symmetric] split: if_splits)
  have two: "71 \<le> n" if "mentor_decision (RSI m) (MACD m) (Bollinger m) = Inr (SHORT, rationale2)"
    using that unfolding rsi mentor_decision_int
    by (simp add: labels_distinct labels_distinct [symmetric] rationales_distinct
        rationales_distinct [symmetric] split: if_splits)
  show ?thesis
    using rsi range macd boll one two unfolding m_def by blast
qed

theorem mock_indicators_range_witness:
  "RSI (mock_indicators 5 0 0) = PyInt 25
   \<and> MACD (mock_indicators 5 0 0) = Bullish
   \<and> Bollinger (mock_indicators 5 0 0) = NearUpperBand
   \<and> mentor_decision (RSI (mock_indicators 5 0 0)) (MACD (mock_indicators 5 0 0))
        (Bollinger (mock_indicators 5 0 0)) = Inr (LONG, rationale1)
   \<and> (20 :: int) \<le> 25 \<and> (25 :: int) \<le> 29
   \<and> mentor_decision (RSI (mock_indicators 55 1 1)) (MACD (mock_indicators 55 1 1))
        (Bollinger (mock_indicators 55 1 1)) = Inr (SHORT, rationale2)
   \<and> RSI (mock_indicators 55 1 1) = PyInt 75"
proof -
  have a: "mock_indicators 5 0 0 = \<lparr>RSI = PyInt 25, MACD = Bullish, Bollinger = NearUpperBand\<rparr>"
    by (simp add: mock_indicators_def randint_def randbelow_def choice_def)
  have b: "mock_indicators 55 1 1 = \<lparr>RSI = PyInt 75, MACD = Bearish, Bollinger = NearLowerBand\<rparr>"
    by (simp add: mock_indicators_def randint_def randbelow_def choice_def)
  have c: "mentor_decision (RSI (mock_indicators 5 0 0)) (MACD (mock_indicators 5 0 0))
        (Bollinger (mock_indicators 5 0 0)) = Inr (LONG, rationale1)"
    unfolding a by (simp add: mentor_decision_int)
  have d: "mentor_decision (RSI (mock_indicators 55 1 1)) (MACD (mock_indicators 55 1 1))
        (Bollinger (mock_indicators 55 1 1)) = Inr (SHORT, rationale2)"
    unfolding b by (simp add: mentor_decision_int indicator_values_distinct [symmetric])
  obtain n where "RSI (mock_indicators 5 0 0) = PyInt n" "20 \<le> n" "n \<le> 29"
    using mock_indicators_range [of 5 0 0] c by blast
  moreover obtain k where "RSI (mock_indicators 55 1 1) = PyInt k" "71 \<le> k" "k \<le> 80"
    using mock_indicators_range [of 55 1 1] d by blast
  ultimately show ?thesis using a b c d by simp
qed

section \<open>Properties of the price fetch\<close>

text \<open>
  Claim C7, as the code has it. \<open>get_price\<close> never raises. It returns \<^verbatim>\<open>None\<close> when the
  request raises, when the body is not JSON, when the decoded body has no entry for the
  coin (or cannot be subscripted), and when that entry has no \<^verbatim>\<open>usdt\<close> field. When both
  lookups succeed it returns the nested field, whatever the status code of the response.
\<close>

theorem get_price_sentinel:
  "(\<exists>v. get_price coin_id outcome = Inr v)
   \<and> get_price coin_id RequestFailed = Inr PyNone
   \<and> get_price coin_id (Responded status None) = Inr PyNone
   \<and> (py_getitem data coin_id = Inl e
        \<longrightarrow> get_price coin_id (Responded status (Some data)) = Inr PyNone)
   \<and> (py_getitem data coin_id = Inr entry \<and> py_getitem entry ''usdt'' = Inl e
        \<longrightarrow> get_price coin_id (Responded status (Some data)) = Inr PyNone)
   \<and> (py_getitem data coin_id = Inr entry \<and> py_getitem entry ''usdt'' = Inr price
        \<longrightarrow> get_price coin_id (Responded status (Some data)) = Inr price)"
  by (simp add: get_price_def get_price_try_def split: sum.splits http_outcome.splits option.splits)

text \<open>
  A response with status 500 whose body carries the price: the price is returned, not
  \<^verbatim>\<open>None\<close>.
\<close>

theorem get_price_ignores_status:
  "get_price ''bitcoin''
     (Responded 500 (Some (PyDict [(''bitcoin'', PyDict [(''usdt'', PyFloat 42)])])))
     = Inr (PyFloat 42)
   \<and> PyFloat 42 \<noteq> PyNone \<and> \<not> (200 \<le> (500 :: nat) \<and> (500 :: nat) < 300)"
  by (simp add: get_price_def get_price_try_def)

theorem get_price_sentinel_witness:
  "get_price ''bitcoin''
     (Responded 200 (Some (PyDict [(''bitcoin'', PyDict [(''usdt'', PyInt 64000)])])))
     = Inr (PyInt 64000)
   \<and> get_price ''bitcoin'' (Responded 404 (Some (PyDict [(''error'', PyStr ''coin not found'')])))
     = Inr PyNone
   \<and> get_price ''bitcoin'' (Responded 200 (Some (PyDict [(''bitcoin'', PyDict [])])))
     = Inr PyNone"
proof -
  have a: "py_getitem (PyDict [(''bitcoin'', PyDict [(''usdt'', PyInt 64000)])]) ''bitcoin''
             = Inr (PyDict [(''usdt'', PyInt 64000)])
           \<and> py_getitem (PyDict [(''usdt'', PyInt 64000)]) ''usdt'' = Inr (PyInt 64000)"
    by simp
  have b: "py_getitem (PyDict [(''error'', PyStr ''coin not found'')]) ''bitcoin'' = Inl KeyError"
    by simp
  have c: "py_getitem (PyDict [(''bitcoin'', PyDict [])]) ''bitcoin'' = Inr (PyDict [])
           \<and> py_getitem (PyDict []) ''usdt'' = Inl KeyError"
    by simp
  show ?thesis
    using a b c
      get_price_sentinel [of "''bitcoin''" RequestFailed 200
        "PyDict [(''bitcoin'', PyDict [(''usdt'', PyInt 64000)])]" KeyError
        "PyDict [(''usdt'', PyInt 64000)]" "PyInt 64000"]
      get_price_sentinel [of "''bitcoin''" RequestFailed 404
        "PyDict [(''error'', PyStr ''coin not found'')]" KeyError PyNone PyNone]
      get_price_sentinel [of "''bitcoin''" RequestFailed 200
        "PyDict [(''bitcoin'', PyDict [])]" KeyError "PyDict []" PyNone]
    by blast
qed


section \<open>Properties of the market-mover fetch\<close>

lemma mover_rows_set:
  "mover_rows coins = Inr rows \<Longrightarrow> set rows = {r. \<exists>c\<in>set coins. mover_row c = Inr r}"
proof (induction coins arbitrary: rows)
  case Nil
  then show ?case by simp
next
  case (Cons coin coins)
  then obtain r rs where r: "mover_row coin = Inr r" and rs: "mover_rows coins = Inr rs"
    and rows: "rows = r # rs"
    by (auto split: sum.splits)
  from Cons.IH [OF rs] r rows show ?case by auto
qed

lemma mover_rows_defined:
  "mover_rows coins = Inr rows \<Longrightarrow> c \<in> set coins \<Longrightarrow> \<exists>r. mover_row c = Inr r \<and> r \<in> set rows"
proof (induction coins arbitrary: rows)
  case Nil
  then show ?case by simp
next
  case (Cons coin coins)
  then obtain r rs where r: "mover_row coin = Inr r" and rs: "mover_rows coins = Inr rs"
    and rows: "rows = r # rs"
    by (auto split: sum.splits)
  show ?case
  proof (cases "c = coin")
    case True
    with r rows show ?thesis by simp
  next
    case False
    with Cons.prems(2) have "c \<in> set coins" by simp
    from Cons.IH [OF rs this] rows show ?thesis by auto
  qed
qed

lemma mover_row_name:
  "mover_row c = Inr r \<Longrightarrow> py_getitem c ''name'' = Inr (fst r)"
  by (auto simp: mover_row_def split: sum.splits)

lemma get_top_movers_try_list:
  assumes "get_top_movers_try (Responded status (Some (PyList records))) = Inr (gainers, losers)"
  shows "mover_rows (take 5 records) = Inr gainers"
    and "mover_rows (drop (length records - 5) records) = Inr losers"
  using assms by (auto simp: get_top_movers_try_def split: sum.splits)

lemma shared_record:
  assumes "1 \<le> length records" "length records < 10"
  shows "\<exists>c. c \<in> set (take 5 records) \<and> c \<in> set (drop (length records - 5) records)"
proof -
  define k where "k = min 4 (length records - 1)"
  have k: "k < length records" "k < 5" "length records - 5 \<le> k"
    using assms by (auto simp: k_def)
  have "records ! k \<in> set (take 5 records)"
    using k by (auto simp: in_set_conv_nth intro!: exI [of _ k])
  moreover have "records ! k \<in> set (drop (length records - 5) records)"
    using k by (auto simp: in_set_conv_nth intro!: exI [of _ "k - (length records - 5)"])
  ultimately show ?thesis by blast
qed

lemma separate_records:
  assumes "10 \<le> length records" "distinct (map f records)"
    and "c \<in> set (take 5 records)" "c' \<in> set (drop (length records - 5) records)"
  shows "f c \<noteq> f c'"
proof -
  obtain i where i: "i < 5" "i < length records" "records ! i = c"
    using assms(3) by (auto simp: in_set_conv_nth)
  obtain j' where "j' < length (drop (length records - 5) records)"
    "drop (length records - 5) records ! j' = c'"
    using assms(4) unfolding in_set_conv_nth by blast
  then have "length records - 5 + j' < length records"
    "records ! (length records - 5 + j') = c'"
    by simp_all
  then obtain j where j: "length records - 5 + j < length records"
    "records ! (length records - 5 + j) = c'"
    by blast
  have "i \<noteq> length records - 5 + j" using i(1) assms(1) by simp
  then have "map f records ! i \<noteq> map f records ! (length records - 5 + j)"
    using assms(2) i(2) j(1) by (simp add: nth_eq_iff_index_eq del: nth_map)
  then show ?thesis using i j by simp
qed

text \<open>
  Claim C10. When the fetch succeeds on a list of records, \<open>get_top_movers\<close> returns the
  rows of its first five and of its last five records. With at least one and fewer than ten
  records the two lists share a row, so the same coin is listed as a gainer and as a loser.
  With ten or more records the two lists come from different records: if the records'
  names are pairwise different, no name occurs in both lists.
\<close>

theorem top_movers_overlap:
  assumes "get_top_movers_try (Responded status (Some (PyList records))) = Inr (gainers, losers)"
  shows "get_top_movers (Responded status (Some (PyList records))) = (gainers, losers)
    \<and> (1 \<le> length records \<and> length records < 10 \<longrightarrow> set gainers \<inter> set losers \<noteq> {})
    \<and> (10 \<le> length records \<and> distinct (map (\<lambda>c. py_getitem c ''name'') records)
         \<longrightarrow> fst ` set gainers \<inter> fst ` set losers = {})"
proof (intro conjI impI)
  note rows = get_top_movers_try_list [OF assms]
  note sets = mover_rows_set [OF rows(1)] mover_rows_set [OF rows(2)]
  show "get_top_movers (Responded status (Some (PyList records))) = (gainers, losers)"
    using assms by (simp add: get_top_movers_def)
  show "set gainers \<inter> set losers \<noteq> {}"
    if few: "1 \<le> length records \<and> length records < 10"
  proof -
    obtain c where c: "c \<in> set (take 5 records)" "c \<in> set (drop (length records - 5) records)"
      using shared_record [of records] few by blast
    obtain g where g: "mover_row c = Inr g" "g \<in> set gainers"
      using mover_rows_defined [OF rows(1) c(1)] by blast
    obtain l where l: "mover_row c = Inr l" "l \<in> set losers"
      using mover_rows_defined [OF rows(2) c(2)] by blast
    from g l have "g \<in> set gainers \<inter> set losers" by simp
    then show ?thesis by blast
  qed
  show "fst ` set gainers \<inter> fst ` set losers = {}"
    if many: "10 \<le> length records \<and> distinct (map (\<lambda>c. py_getitem c ''name'') records)"
  proof (rule ccontr)
    assume "fst ` set gainers \<inter> fst ` set losers \<noteq> {}"
    then obtain x where x: "x \<in> fst ` set gainers" "x \<in> fst ` set losers"
      by blast
    from x(1) obtain g where g: "g \<in> set gainers" "x = fst g"
      by (rule imageE)
    from x(2) obtain l where l: "l \<in> set losers" "x = fst l"
      by (rule imageE)
    from g l have gl: "g \<in> set gainers" "l \<in> set losers" "fst g = fst l"
      by simp_all
    obtain c where c: "c \<in> set (take 5 records)" "mover_row c = Inr g"
      using gl(1) sets(1) by auto
    obtain c' where c': "c' \<in> set (drop (length records - 5) records)" "mover_row c' = Inr l"
      using gl(2) sets(2) by auto
    have "py_getitem c ''name'' = py_getitem c' ''name''"
      using mover_row_name [OF c(2)] mover_row_name [OF c'(2)] gl(3) by simp
    moreover have "py_getitem c ''name'' \<noteq> py_getitem c' ''name''"
      using many c(1) c'(1) by (intro separate_records [of records]) simp_all
    ultimately show False by contradiction
  qed
qed


theorem top_movers_overlap_witness:
  "get_top_movers (Responded 200 (Some (PyList
      [PyDict [(''name'', PyStr ''Pepe''), (''symbol'', PyStr ''pepe''),
               (''price_change_percentage_24h'', PyInt 7)],
       PyDict [(''name'', PyStr ''Bitcoin''), (''symbol'', PyStr ''btc''),
               (''price_change_percentage_24h'', PyInt (- 2))]])))
     = ([(PyStr ''Pepe'', PyStr ''pepe'', PyInt 7), (PyStr ''Bitcoin'', PyStr ''btc'', PyInt (- 2))],
        [(PyStr ''Pepe'', PyStr ''pepe'', PyInt 7), (PyStr ''Bitcoin'', PyStr ''btc'', PyInt (- 2))])
   \<and> set [(PyStr ''Pepe'', PyStr ''pepe'', PyInt 7), (PyStr ''Bitcoin'', PyStr ''btc'', PyInt (- 2))]
       \<inter> set [(PyStr ''Pepe'', PyStr ''pepe'', PyInt 7), (PyStr ''Bitcoin'', PyStr ''btc'', PyInt (- 2))]
       \<noteq> {}
   \<and> get_top_movers (Responded 200 (Some (PyList
        (map (\<lambda>n. PyDict [(''name'', PyInt n), (''symbol'', PyInt n),
                            (''price_change_percentage_24h'', PyInt n)])
           [1, 2, 3, 4, 5, 6, 7, 8, 9, 10]))))
     = (map (\<lambda>n. (PyInt n, PyInt n, PyInt n)) [1, 2, 3, 4, 5],
        map (\<lambda>n. (PyInt n, PyInt n, PyInt n)) [6, 7, 8, 9, 10])
   \<and> fst ` set (map (\<lambda>n. (PyInt n, PyInt n, PyInt n)) [1, 2, 3, 4, 5])
       \<inter> fst ` set (map (\<lambda>n. (PyInt n, PyInt n, PyInt n)) [6, 7, 8, 9, 10]) = {}"
proof -
  let ?two = "[PyDict [(''name'', PyStr ''Pepe''), (''symbol'', PyStr ''pepe''),
               (''price_change_percentage_24h'', PyInt 7)],
       PyDict [(''name'', PyStr ''Bitcoin''), (''symbol'', PyStr ''btc''),
               (''price_change_percentage_24h'', PyInt (- 2))]]"
  let ?rows = "[(PyStr ''Pepe'', PyStr ''pepe'', PyInt 7),
       (PyStr ''Bitcoin'', PyStr ''btc'', PyInt (- 2))]"
  let ?ten = "map (\<lambda>n. PyDict [(''name'', PyInt n), (''symbol'', PyInt n),
                            (''price_change_percentage_24h'', PyInt n)])
           [1, 2, 3, 4, 5, 6, 7, 8, 9, 10]"
  let ?first = "map (\<lambda>n. (PyInt n, PyInt n, PyInt n)) [1, 2, 3, 4, 5]"
  let ?last = "map (\<lambda>n. (PyInt n, PyInt n, PyInt n)) [6, 7, 8, 9, 10]"
  have a: "get_top_movers_try (Responded 200 (Some (PyList ?two))) = Inr (?rows, ?rows)"
    by (simp add: get_top_movers_try_def mover_row_def)
  have b: "get_top_movers_try (Responded 200 (Some (PyList ?ten))) = Inr (?first, ?last)"
    by (simp add: get_top_movers_try_def mover_row_def)
  have few: "1 \<le> length ?two \<and> length ?two < 10" by simp
  have many: "10 \<le> length ?ten \<and> distinct (map (\<lambda>c. py_getitem c ''name'') ?ten)" by simp
  from top_movers_overlap [OF a] few top_movers_overlap [OF b] many
  show ?thesis by blast
qed


end
